theory Spec2Isabelle
  imports Complex_Main "HOL-Library.Word"
begin

unbundle bit_operations_syntax

section \<open>The pg\_rage\_terminator background worker\<close>

text \<open>
  A model of \<^verbatim>\<open>pg_rage_terminator.c\<close>: the two configuration parameters registered by
  \<^verbatim>\<open>pg_rage_terminator_load_params\<close>, the two signal handlers, the kill query built by
  \<^verbatim>\<open>pg_rage_terminator_build_query\<close> and the loop of \<^verbatim>\<open>pg_rage_terminator_main\<close>.
  The worker's globals are a record that every function takes and returns; what the
  loop does to the outside (waiting, log lines, the query it runs) is a list of events
  in program order; what the outside does to the loop in one iteration (the result of
  the wait, the signals delivered, the configuration file, the contents of
  \<^verbatim>\<open>pg_stat_activity\<close>) is a record of inputs.
\<close>

subsection \<open>Configuration parameters\<close>

text \<open>
  The integer arguments of \<^verbatim>\<open>DefineCustomIntVariable\<close>: boot value, minimum, maximum.
\<close>

record config_int =
  boot_val :: int
  min_val :: int
  max_val :: int

text \<open>\<^verbatim>\<open>pg_rage_terminator_load_params\<close>: the definition of \<^verbatim>\<open>chance\<close>, then of \<^verbatim>\<open>interval\<close>.\<close>

definition pg_rage_terminator_load_params :: "config_int \<times> config_int" where
  "pg_rage_terminator_load_params =
     (\<lparr>boot_val = 10, min_val = 0, max_val = 100\<rparr>,
      \<lparr>boot_val = 5, min_val = - 1, max_val = 3600\<rparr>)"

text \<open>
  The server's handling of one integer parameter when the configuration file is read:
  a setting inside the registered range is assigned, a setting outside it is refused and
  the variable keeps its value, and a parameter that is not set in the file goes back to
  its boot value.
\<close>

definition set_config_int :: "config_int \<Rightarrow> int option \<Rightarrow> int \<Rightarrow> int" where
  "set_config_int g setting cur =
     (case setting of
        None \<Rightarrow> boot_val g
      | Some v \<Rightarrow> if min_val g \<le> v \<and> v \<le> max_val g then v else cur)"

subsection \<open>Worker state, events and inputs\<close>

record worker =
  got_sigterm :: bool
  got_sighup :: bool
  chance :: int
  interval :: int
  buf :: string

datatype level = DEBUG1 | LOG | FATAL

text \<open>
  What the worker does to the outside: \<^verbatim>\<open>WaitLatch\<close> with a timeout in milliseconds, a
  message of \<^verbatim>\<open>elog\<close> or \<^verbatim>\<open>ereport\<close>, \<^verbatim>\<open>SPI_execute\<close> of a query text.
\<close>

datatype event =
    is_Waited: Waited int
  | is_Logged: Logged level string
  | is_Executed: Executed string

text \<open>
  How a piece of the worker's code ends: control goes on in the loop, or the process
  exits with a status (\<^verbatim>\<open>proc_exit\<close>; \<^verbatim>\<open>elog(FATAL)\<close> exits with status 1).
\<close>

datatype outcome =
    Continue worker
  | ProcExit int worker

fun state_of :: "outcome \<Rightarrow> worker" where
  "state_of (Continue s) = s"
| "state_of (ProcExit n s) = s"

text \<open>
  One row of \<^verbatim>\<open>pg_stat_activity\<close>, with the result that \<^verbatim>\<open>pg_terminate_backend\<close> gives for
  its pid and with the bytes that lie in memory behind the last column of its row in the
  result table; and one row of the kill query's result (columns 1 to 5, and those bytes).
\<close>

record backend =
  pid :: int
  usename :: "string option"
  datname :: "string option"
  client_addr :: "string option"
  client_port :: "int option"
  terminate_ok :: bool
  after_row :: "char list"

record killed =
  k_pid :: int
  k_status :: bool
  k_usename :: "string option"
  k_datname :: "string option"
  k_client_addr :: "string option"
  k_after :: "char list"

text \<open>
  What one iteration of the loop receives: the value returned by \<^verbatim>\<open>WaitLatch\<close>, the
  signals whose handlers ran before the flags are tested, the settings found by
  \<^verbatim>\<open>ProcessConfigFile\<close>, the status \<^verbatim>\<open>SPI_execute\<close> returns, the rows of
  \<^verbatim>\<open>pg_stat_activity\<close> each with the value \<^verbatim>\<open>random()\<close> takes for it, and the signals whose
  handlers ran after the flags were tested and before the loop condition is read again.
\<close>

record wakeup =
  rc :: "32 word"
  hup_arrived :: bool
  term_arrived :: bool
  conf_chance :: "int option"
  conf_interval :: "int option"
  spi_ret :: int
  activity :: "(backend \<times> real) list"
  hup_late :: bool
  term_late :: bool

definition WL_LATCH_SET :: "32 word" where "WL_LATCH_SET = push_bit 0 1"
definition WL_TIMEOUT :: "32 word" where "WL_TIMEOUT = push_bit 3 1"
definition WL_POSTMASTER_DEATH :: "32 word" where "WL_POSTMASTER_DEATH = push_bit 4 1"

definition SPI_OK_SELECT :: int where "SPI_OK_SELECT = 5"

subsection \<open>Signal handlers\<close>

definition pg_rage_terminator_sigterm :: "worker \<Rightarrow> worker" where
  "pg_rage_terminator_sigterm s = s\<lparr>got_sigterm := True\<rparr>"

definition pg_rage_terminator_sighup :: "worker \<Rightarrow> worker" where
  "pg_rage_terminator_sighup s = s\<lparr>got_sighup := True\<rparr>"

definition deliver :: "bool \<Rightarrow> bool \<Rightarrow> worker \<Rightarrow> worker" where
  "deliver hup term s =
     (let s' = (if term then pg_rage_terminator_sigterm s else s)
      in if hup then pg_rage_terminator_sighup s' else s')"

subsection \<open>The kill query\<close>

text \<open>The conversion \<^verbatim>\<open>%d\<close> of \<^verbatim>\<open>appendStringInfo\<close> and \<^verbatim>\<open>elog\<close>.\<close>

fun digits :: "nat \<Rightarrow> string" where
  "digits n =
     (if n < 10 then [char_of (48 + n)]
      else digits (n div 10) @ [char_of (48 + n mod 10)])"

declare digits.simps [simp del]

definition fmt_d :: "int \<Rightarrow> string" where
  "fmt_d i = (if i < 0 then CHR ''-'' # digits (nat (- i)) else digits (nat i))"

definition kill_query_head :: string where
  "kill_query_head =
     ''SELECT '' @
     ''pid, pg_terminate_backend(pid) as status, '' @
     ''usename, datname, client_addr::text '' @
     ''FROM pg_stat_activity '' @
     ''WHERE client_port IS NOT NULL '' @
     ''AND ((random() * 100)::int < ''"

definition kill_query_tail :: string where
  "kill_query_tail = '') ''"

text \<open>
  \<^verbatim>\<open>pg_rage_terminator_build_query\<close> appends the query for the current \<^verbatim>\<open>chance\<close> to the
  buffer and reports the buffer at level DEBUG1.
\<close>

definition pg_rage_terminator_build_query :: "string \<Rightarrow> int \<Rightarrow> string \<times> event list" where
  "pg_rage_terminator_build_query b c =
     (let b' = b @ kill_query_head @ fmt_d c @ kill_query_tail
      in (b', [Logged DEBUG1 (''Kill query is: '' @ b')]))"

text \<open>The query for a value of \<^verbatim>\<open>chance\<close>: what the function leaves in an empty buffer.\<close>

definition kill_query :: "int \<Rightarrow> string" where
  "kill_query c = fst (pg_rage_terminator_build_query [] c)"

subsection \<open>What the server does with the kill query\<close>

text \<open>
  The cast of a \<^verbatim>\<open>double precision\<close> value to \<^verbatim>\<open>int\<close> rounds to the nearest integer with
  \<^verbatim>\<open>rint\<close>, which sends a value halfway between two integers to the even one. (The cast
  also refuses values outside the 32-bit range; \<^verbatim>\<open>random() * 100\<close> is never there.)
\<close>

definition rint :: "real \<Rightarrow> int" where
  "rint x =
     (let f = \<lfloor>x\<rfloor>; d = x - of_int f
      in if d < 1 / 2 then f
         else if 1 / 2 < d then f + 1
         else if even f then f else f + 1)"

definition dtoi4 :: "real \<Rightarrow> int" where
  "dtoi4 x = rint x"

text \<open>
  The second conjunct of the WHERE clause, \<^verbatim>\<open>(random() * 100)::int < chance\<close>, for the value
  \<open>u\<close> that \<^verbatim>\<open>random()\<close> returns; and the whole clause for one row.
\<close>

definition chance_hit :: "int \<Rightarrow> real \<Rightarrow> bool" where
  "chance_hit c u = (dtoi4 (u * 100) < c)"

definition kill_where :: "int \<Rightarrow> backend \<times> real \<Rightarrow> bool" where
  "kill_where c bu = (client_port (fst bu) \<noteq> None \<and> chance_hit c (snd bu))"

text \<open>The select list: \<^verbatim>\<open>pid, pg_terminate_backend(pid) as status, usename, datname, client_addr::text\<close>.\<close>

definition kill_select :: "backend \<times> real \<Rightarrow> killed" where
  "kill_select bu =
     \<lparr>k_pid = pid (fst bu), k_status = terminate_ok (fst bu),
      k_usename = usename (fst bu), k_datname = datname (fst bu),
      k_client_addr = client_addr (fst bu), k_after = after_row (fst bu)\<rparr>"

definition kill_rows :: "int \<Rightarrow> (backend \<times> real) list \<Rightarrow> killed list" where
  "kill_rows c act = map kill_select (filter (kill_where c) act)"

text \<open>
  The server reads the threshold back from the text of the query: the text must be the
  fixed head, a decimal integer, and the fixed tail.
\<close>

definition is_digit :: "char \<Rightarrow> bool" where
  "is_digit ch = (48 \<le> (of_char ch :: nat) \<and> (of_char ch :: nat) \<le> 57)"

definition read_nat :: "string \<Rightarrow> nat option" where
  "read_nat ds =
     (if ds \<noteq> [] \<and> list_all is_digit ds
      then Some (foldl (\<lambda>a ch. 10 * a + (of_char ch - 48)) 0 ds)
      else None)"

definition read_int :: "string \<Rightarrow> int option" where
  "read_int str =
     (case str of
        [] \<Rightarrow> None
      | ch # ds \<Rightarrow>
          if ch = CHR ''-'' then map_option (\<lambda>n. - int n) (read_nat ds)
          else map_option int (read_nat str))"

definition query_chance :: "string \<Rightarrow> int option" where
  "query_chance q =
     (let h = length kill_query_head; t = length kill_query_tail
      in if h + t \<le> length q \<and> take h q = kill_query_head
            \<and> drop (length q - t) q = kill_query_tail
         then read_int (take (length q - h - t) (drop h q))
         else None)"

text \<open>
  \<^verbatim>\<open>SPI_execute\<close>: the status is the environment's; with status \<^verbatim>\<open>SPI_OK_SELECT\<close> the
  result table holds the rows the query selects.
\<close>

definition SPI_execute :: "string \<Rightarrow> wakeup \<Rightarrow> int \<times> killed list" where
  "SPI_execute q w =
     (spi_ret w,
      if spi_ret w = SPI_OK_SELECT
      then (case query_chance q of None \<Rightarrow> [] | Some c \<Rightarrow> kill_rows c (activity w))
      else [])"

subsection \<open>The main loop\<close>

text \<open>\<^verbatim>\<open>ProcessConfigFile(PGC_SIGHUP)\<close> on the two parameters of this worker.\<close>

definition ProcessConfigFile :: "wakeup \<Rightarrow> worker \<Rightarrow> worker" where
  "ProcessConfigFile w s =
     s\<lparr>chance := set_config_int (fst pg_rage_terminator_load_params) (conf_chance w) (chance s),
       interval := set_config_int (snd pg_rage_terminator_load_params) (conf_interval w) (interval s)\<rparr>"

text \<open>The block under \<^verbatim>\<open>if (got_sighup)\<close>.\<close>

definition process_sighup :: "wakeup \<Rightarrow> worker \<Rightarrow> event list \<times> worker" where
  "process_sighup w s =
     (let old_chance = chance s;
          s1 = (ProcessConfigFile w s)\<lparr>got_sighup := False\<rparr>;
          ev = [Logged LOG ''bgworker pg_rage_terminator signal: processed SIGHUP'']
      in if old_chance \<noteq> chance s1
         then (let (b, built) = pg_rage_terminator_build_query [] (chance s1)
               in (ev @ built, s1\<lparr>buf := b\<rparr>))
         else (ev, s1))"

text \<open>
  What \<^verbatim>\<open>DatumGetCString\<close> and \<^verbatim>\<open>%s\<close> make of the columns. A null column gives the datum 0,
  a null pointer, for which the loop prints \<^verbatim>\<open>none\<close>. Columns 3 and 4 have type \<^verbatim>\<open>name\<close>,
  whose datum points to the characters, ended by a zero byte: \<^verbatim>\<open>%s\<close> prints the name.
  Column 5 has type \<^verbatim>\<open>text\<close>, whose datum points to a variable-length value: a header
  that holds the length, then the characters, and no zero byte at the end. In a row of
  the result table a value of at most 126 characters has a header of one byte, and a
  longer one a header of four bytes (written here as a little-endian machine stores
  them). \<^verbatim>\<open>%s\<close> prints from the first byte of the header up to the next zero byte.
\<close>

definition or_none :: "string option \<Rightarrow> string" where
  "or_none x = (case x of None \<Rightarrow> ''none'' | Some v \<Rightarrow> v)"

definition text_datum :: "string \<Rightarrow> char list" where
  "text_datum v =
     (if length v + 1 \<le> 127 then [char_of (2 * (length v + 1) + 1)]
      else (let x = 4 * (length v + 4)
            in [char_of x, char_of (x div 256), char_of (x div 65536),
                char_of (x div 16777216)]))
     @ v"

definition cstring :: "char list \<Rightarrow> string" where
  "cstring bytes = takeWhile (\<lambda>ch. ch \<noteq> CHR 0x00) bytes"

text \<open>The text of one log line of the result loop.\<close>

definition rage_line :: "killed \<Rightarrow> event" where
  "rage_line k =
     Logged LOG (''Rage terminated connection with PID '' @ fmt_d (k_pid k) @ '' ''
       @ or_none (k_datname k) @ ''/'' @ or_none (k_usename k) @ ''/''
       @ (case k_client_addr k of
            None \<Rightarrow> ''none''
          | Some v \<Rightarrow> cstring (text_datum v @ k_after k)))"

text \<open>The loop \<^verbatim>\<open>for (i = 0; i < SPI_processed; i++)\<close> over the result table.\<close>

function log_loop :: "nat \<Rightarrow> killed list \<Rightarrow> event list" where
  "log_loop i vals =
     (if i < length vals then rage_line (vals ! i) # log_loop (i + 1) vals else [])"
  by pat_completeness auto
termination
  by (relation "measure (\<lambda>(i, vals). length vals - i)") auto

declare log_loop.simps [simp del]

text \<open>The part of the loop body after the test of \<^verbatim>\<open>interval\<close>: one pass of the kill query.\<close>

definition rage_pass :: "wakeup \<Rightarrow> worker \<Rightarrow> event list \<times> outcome" where
  "rage_pass w s =
     (let (ret, vals) = SPI_execute (buf s) w
      in if ret \<noteq> SPI_OK_SELECT
         then ([Executed (buf s), Logged FATAL ''Error when trying to rage''], ProcExit 1 s)
         else (Executed (buf s) # log_loop 0 vals,
               Continue (deliver (hup_late w) (term_late w) s)))"

text \<open>The body of \<^verbatim>\<open>while (!got_sigterm)\<close>.\<close>

definition iteration :: "wakeup \<Rightarrow> worker \<Rightarrow> event list \<times> outcome" where
  "iteration w s0 =
     (let sleep_interval = (if 0 = interval s0 then 10 else interval s0);
          waited = [Waited (sleep_interval * 1000)];
          s1 = deliver (hup_arrived w) (term_arrived w) s0
      in if rc w AND WL_POSTMASTER_DEATH \<noteq> 0 then (waited, ProcExit 1 s1)
         else
           let (reloaded, s2) = (if got_sighup s1 then process_sighup w s1 else ([], s1))
           in if got_sigterm s2
              then (waited @ reloaded
                      @ [Logged LOG ''bgworker pg_rage_terminator signal: processed SIGTERM''],
                    ProcExit 0 s2)
              else if 0 = interval s2
              then (waited @ reloaded @ [Logged LOG ''Nothing to do, sleep zzzzZZZZ''],
                    Continue (deliver (hup_late w) (term_late w) s2))
              else (let (scanned, out) = rage_pass w s2
                    in (waited @ reloaded @ scanned, out)))"

text \<open>
  The loop, run on the inputs of its successive iterations. It ends with
  \<^verbatim>\<open>proc_exit(0)\<close> when the loop condition fails, with the exit of the iteration that
  exits, and is still running (\<open>Continue\<close>) when the inputs given are used up.
\<close>

fun main_loop :: "wakeup list \<Rightarrow> worker \<Rightarrow> event list \<times> outcome" where
  "main_loop [] s = (if got_sigterm s then ([], ProcExit 0 s) else ([], Continue s))"
| "main_loop (w # ws) s =
     (if got_sigterm s then ([], ProcExit 0 s)
      else (case iteration w s of
              (ev, Continue s') \<Rightarrow> (let (ev', out) = main_loop ws s' in (ev @ ev', out))
            | (ev, ProcExit n s') \<Rightarrow> (ev, ProcExit n s')))"

text \<open>
  \<^verbatim>\<open>pg_rage_terminator_main\<close>, started with the values the two parameters have then and no
  signal pending: it builds the query in a fresh buffer and enters the loop.
\<close>

definition pg_rage_terminator_main :: "int \<Rightarrow> int \<Rightarrow> wakeup list \<Rightarrow> event list \<times> outcome" where
  "pg_rage_terminator_main c i ws =
     (let (b, built) = pg_rage_terminator_build_query [] c;
          s = \<lparr>got_sigterm = False, got_sighup = False, chance = c, interval = i, buf = b\<rparr>;
          (ev, out) = main_loop ws s
      in (built @ ev, out))"

subsection \<open>Points of one iteration\<close>

text \<open>
  Names for what one iteration passes through, in the order of the loop body: the
  \<^verbatim>\<open>WaitLatch\<close> call with the timeout computed from \<^verbatim>\<open>interval\<close>; the state in which the
  flags are tested, the handlers of the signals delivered so far having run; what the
  block under \<^verbatim>\<open>if (got_sighup)\<close> logs, if it is entered; the state after that block.
\<close>

definition wait_event :: "worker \<Rightarrow> event" where
  "wait_event s = Waited ((if 0 = interval s then 10 else interval s) * 1000)"

definition woken :: "wakeup \<Rightarrow> worker \<Rightarrow> worker" where
  "woken w s = deliver (hup_arrived w) (term_arrived w) s"

definition reload_events :: "wakeup \<Rightarrow> worker \<Rightarrow> event list" where
  "reload_events w s =
     (if got_sighup (woken w s) then fst (process_sighup w (woken w s)) else [])"

definition settled :: "wakeup \<Rightarrow> worker \<Rightarrow> worker" where
  "settled w s =
     (if got_sighup (woken w s) then snd (process_sighup w (woken w s)) else woken w s)"

text \<open>The exit status of an outcome, the log line that reports a built query, and a message at level FATAL.\<close>

fun exit_code :: "outcome \<Rightarrow> int option" where
  "exit_code (Continue s) = None"
| "exit_code (ProcExit n s) = Some n"

fun is_build :: "event \<Rightarrow> bool" where
  "is_build (Logged l m) = (l = DEBUG1)"
| "is_build e = False"

fun is_fatal :: "event \<Rightarrow> bool" where
  "is_fatal (Logged l m) = (l = FATAL)"
| "is_fatal e = False"

subsection \<open>Sample inputs\<close>

text \<open>
  Two client connections (the second without a user name, in no database, and one that
  \<^verbatim>\<open>pg_terminate_backend\<close> fails to signal; a zero byte lies right behind the row of the
  first, and behind the two bytes \<^verbatim>\<open>xy\<close> for the second), a worker with the boot values of both
  parameters and its query built, and a wakeup by timeout with no signal, no setting in
  the configuration file and a query that succeeds.
\<close>

definition backend_a :: backend where
  "backend_a =
     \<lparr>pid = 4711, usename = Some ''alice'', datname = Some ''shop'',
      client_addr = Some ''10.0.0.7'', client_port = Some 50432, terminate_ok = True,
      after_row = []\<rparr>"

definition backend_b :: backend where
  "backend_b =
     \<lparr>pid = 815, usename = None, datname = None,
      client_addr = Some ''10.0.0.9'', client_port = Some 50433, terminate_ok = False,
      after_row = ''xy''\<rparr>"

definition worker_idle :: worker where
  "worker_idle =
     \<lparr>got_sigterm = False, got_sighup = False, chance = 10, interval = 5,
      buf = fst (pg_rage_terminator_build_query [] 10)\<rparr>"

definition wakeup_quiet :: wakeup where
  "wakeup_quiet =
     \<lparr>rc = WL_TIMEOUT, hup_arrived = False, term_arrived = False,
      conf_chance = None, conf_interval = None, spi_ret = SPI_OK_SELECT,
      activity = [(backend_a, 1 / 50), (backend_b, 1 / 25)],
      hup_late = False, term_late = False\<rparr>"

text \<open>
  Two more wakeups, with SIGHUP and SIGTERM both delivered during the wait: one reporting
  the death of the postmaster, one not.
\<close>

definition wakeup_death :: wakeup where
  "wakeup_death = wakeup_quiet\<lparr>rc := WL_LATCH_SET OR WL_POSTMASTER_DEATH,
     hup_arrived := True, term_arrived := True\<rparr>"

definition wakeup_signals :: wakeup where
  "wakeup_signals = wakeup_quiet\<lparr>rc := WL_LATCH_SET, hup_arrived := True, term_arrived := True\<rparr>"

text \<open>
  A worker with \<^verbatim>\<open>interval = 0\<close>, and wakeups whose configuration file keeps it at 0: by
  timeout, by SIGHUP (the file also sets \<^verbatim>\<open>chance\<close> to 50), by SIGTERM.
\<close>

definition worker_disabled :: worker where
  "worker_disabled = worker_idle\<lparr>interval := 0\<rparr>"

definition wakeup_keep0 :: wakeup where
  "wakeup_keep0 = wakeup_quiet\<lparr>conf_interval := Some 0\<rparr>"

definition wakeup_hup0 :: wakeup where
  "wakeup_hup0 = wakeup_quiet\<lparr>rc := WL_LATCH_SET, hup_arrived := True,
     conf_chance := Some 50, conf_interval := Some 0\<rparr>"

definition wakeup_term0 :: wakeup where
  "wakeup_term0 = wakeup_quiet\<lparr>rc := WL_LATCH_SET, term_arrived := True,
     conf_interval := Some 0\<rparr>"

text \<open>
  Two wakeups by SIGHUP: one whose configuration file changes \<^verbatim>\<open>chance\<close> to 50 and leaves
  \<^verbatim>\<open>interval\<close> at 5, one that leaves \<^verbatim>\<open>chance\<close> at 10 and changes \<^verbatim>\<open>interval\<close> to 7.
\<close>

definition wakeup_chance50 :: wakeup where
  "wakeup_chance50 = wakeup_quiet\<lparr>rc := WL_LATCH_SET, hup_arrived := True,
     conf_chance := Some 50, conf_interval := Some 5\<rparr>"

definition wakeup_interval7 :: wakeup where
  "wakeup_interval7 = wakeup_quiet\<lparr>rc := WL_LATCH_SET, hup_arrived := True,
     conf_chance := Some 10, conf_interval := Some 7\<rparr>"

text \<open>
  Three more wakeups: a timeout at which \<^verbatim>\<open>SPI_execute\<close> returns an error status, a SIGTERM,
  and a SIGHUP with a configuration file that changes nothing.
\<close>

definition wakeup_spi_error :: wakeup where
  "wakeup_spi_error = wakeup_quiet\<lparr>spi_ret := - 1\<rparr>"

definition wakeup_term :: wakeup where
  "wakeup_term = wakeup_quiet\<lparr>rc := WL_LATCH_SET, term_arrived := True\<rparr>"

definition wakeup_hup :: wakeup where
  "wakeup_hup = wakeup_quiet\<lparr>rc := WL_LATCH_SET, hup_arrived := True,
     conf_chance := Some 10, conf_interval := Some 5\<rparr>"

section \<open>Auxiliary facts\<close>

subsection \<open>Rounding\<close>

lemma rint_less_iff:
  "rint x < c \<longleftrightarrow> x < of_int c - 1 / 2 \<or> (x = of_int c - 1 / 2 \<and> odd c)"
proof -
  define f where "f = \<lfloor>x\<rfloor>"
  have lo: "of_int f \<le> x" and hi: "x < of_int f + 1"
    unfolding f_def by linarith+
  consider (below) "c \<le> f" | (succ) "c = f + 1" | (above) "f + 2 \<le> c"
    by linarith
  then show ?thesis
  proof cases
    case below
    then have "(of_int c :: real) \<le> of_int f" by simp
    with lo hi below show ?thesis
      unfolding rint_def Let_def f_def [symmetric] by auto
  next
    case succ
    then have "(of_int c :: real) = of_int f + 1" and "even c \<longleftrightarrow> odd f"
      by simp_all
    with lo hi show ?thesis
      unfolding rint_def Let_def f_def [symmetric] by auto
  next
    case above
    then have "of_int f + 2 \<le> (of_int c :: real)" by linarith
    with lo hi above show ?thesis
      unfolding rint_def Let_def f_def [symmetric] by auto
  qed
qed

lemma chance_hit_iff:
  "chance_hit c u \<longleftrightarrow> u * 100 < of_int c - 1 / 2 \<or> (u * 100 = of_int c - 1 / 2 \<and> odd c)"
  by (simp add: chance_hit_def dtoi4_def rint_less_iff)

subsection \<open>The threshold is read back from the query that was built\<close>

lemma of_char_digit: "d < 10 \<Longrightarrow> (of_char (char_of (48 + d :: nat)) :: nat) = 48 + d"
  by (simp add: of_char_of)

lemma is_digit_char_of: "d < 10 \<Longrightarrow> is_digit (char_of (48 + d :: nat))"
  by (simp add: is_digit_def of_char_digit)

lemma digits_nonempty: "digits n \<noteq> []"
  by (subst digits.simps) simp

lemma digits_all: "list_all is_digit (digits n)"
proof (induction n rule: digits.induct)
  case (1 n)
  show ?case
  proof (cases "n < 10")
    case True
    then show ?thesis by (subst digits.simps) (simp add: is_digit_char_of)
  next
    case False
    with 1 show ?thesis by (subst digits.simps) (simp add: is_digit_char_of)
  qed
qed

lemma digits_value: "foldl (\<lambda>a ch. 10 * a + (of_char ch - 48)) 0 (digits n) = n"
proof (induction n rule: digits.induct)
  case (1 n)
  show ?case
  proof (cases "n < 10")
    case True
    then show ?thesis by (subst digits.simps) (simp add: of_char_digit)
  next
    case False
    with 1 show ?thesis by (subst digits.simps) (simp add: of_char_digit)
  qed
qed

lemma read_nat_digits: "read_nat (digits n) = Some n"
  by (simp add: read_nat_def digits_nonempty digits_all digits_value)

lemma digits_hd: "hd (digits n) \<noteq> CHR ''-''"
proof -
  have "is_digit (hd (digits n))"
    using digits_all [of n] digits_nonempty [of n] by (cases "digits n") simp_all
  then show ?thesis by (auto simp: is_digit_def)
qed

lemma read_int_fmt_d: "read_int (fmt_d i) = Some i"
proof (cases "i < 0")
  case True
  then show ?thesis by (simp add: read_int_def fmt_d_def read_nat_digits)
next
  case False
  obtain ch ds where d: "digits (nat i) = ch # ds"
    using digits_nonempty [of "nat i"] by (cases "digits (nat i)") auto
  with digits_hd [of "nat i"] have "ch \<noteq> CHR ''-''" by simp
  moreover have "read_nat (ch # ds) = Some (nat i)"
    using read_nat_digits [of "nat i"] d by simp
  ultimately show ?thesis using False d by (simp add: read_int_def fmt_d_def)
qed

lemma query_chance_build:
  "query_chance (fst (pg_rage_terminator_build_query [] c)) = Some c"
  by (simp add: query_chance_def pg_rage_terminator_build_query_def Let_def read_int_fmt_d)

lemma SPI_execute_build:
  "SPI_execute (fst (pg_rage_terminator_build_query [] c)) w =
     (spi_ret w, if spi_ret w = SPI_OK_SELECT then kill_rows c (activity w) else [])"
  by (simp add: SPI_execute_def query_chance_build)

subsection \<open>The result loop\<close>

lemma log_loop_drop: "log_loop i vals = map rage_line (drop i vals)"
proof (induction i vals rule: log_loop.induct)
  case (1 i vals)
  show ?case
  proof (cases "i < length vals")
    case True
    with 1 show ?thesis
      by (subst log_loop.simps) (simp add: Cons_nth_drop_Suc [symmetric])
  next
    case False
    then show ?thesis by (subst log_loop.simps) simp
  qed
qed

lemma log_loop_map: "log_loop 0 vals = map rage_line vals"
  by (simp add: log_loop_drop)

subsection \<open>The loop body, piece by piece\<close>

lemma deliver_simps [simp]:
  "got_sigterm (deliver h t s) = (t \<or> got_sigterm s)"
  "got_sighup (deliver h t s) = (h \<or> got_sighup s)"
  "chance (deliver h t s) = chance s"
  "interval (deliver h t s) = interval s"
  "buf (deliver h t s) = buf s"
  by (simp_all add: deliver_def pg_rage_terminator_sigterm_def
      pg_rage_terminator_sighup_def Let_def)

lemma build_query_events:
  "snd (pg_rage_terminator_build_query b c) =
     [Logged DEBUG1 (''Kill query is: '' @ fst (pg_rage_terminator_build_query b c))]"
  by (simp add: pg_rage_terminator_build_query_def Let_def)

lemma process_sighup_state [simp]:
  "got_sigterm (snd (process_sighup w s)) = got_sigterm s"
  "got_sighup (snd (process_sighup w s)) = False"
  "chance (snd (process_sighup w s)) =
     set_config_int (fst pg_rage_terminator_load_params) (conf_chance w) (chance s)"
  "interval (snd (process_sighup w s)) =
     set_config_int (snd pg_rage_terminator_load_params) (conf_interval w) (interval s)"
  by (simp_all add: process_sighup_def ProcessConfigFile_def Let_def split: prod.splits)

lemma process_sighup_buf:
  "buf (snd (process_sighup w s)) =
     (if chance (snd (process_sighup w s)) = chance s then buf s
      else fst (pg_rage_terminator_build_query [] (chance (snd (process_sighup w s)))))"
  by (simp add: process_sighup_def ProcessConfigFile_def Let_def split: prod.splits)

lemma process_sighup_events:
  "fst (process_sighup w s) =
     Logged LOG ''bgworker pg_rage_terminator signal: processed SIGHUP''
     # (if chance (snd (process_sighup w s)) = chance s then []
        else snd (pg_rage_terminator_build_query [] (chance (snd (process_sighup w s)))))"
  by (simp add: process_sighup_def ProcessConfigFile_def Let_def split: prod.splits)

lemma rage_pass_events:
  "fst (rage_pass w s) =
     Executed (buf s) #
       (if spi_ret w = SPI_OK_SELECT then map rage_line (snd (SPI_execute (buf s) w))
        else [Logged FATAL ''Error when trying to rage''])"
  by (simp add: rage_pass_def SPI_execute_def log_loop_map Let_def)

lemma rage_pass_outcome:
  "snd (rage_pass w s) =
     (if spi_ret w = SPI_OK_SELECT then Continue (deliver (hup_late w) (term_late w) s)
      else ProcExit 1 s)"
  by (simp add: rage_pass_def SPI_execute_def Let_def)

lemma iteration_unfold:
  "iteration w s =
     (if rc w AND WL_POSTMASTER_DEATH \<noteq> 0 then ([wait_event s], ProcExit 1 (woken w s))
      else if got_sigterm (settled w s)
      then (wait_event s # reload_events w s
              @ [Logged LOG ''bgworker pg_rage_terminator signal: processed SIGTERM''],
            ProcExit 0 (settled w s))
      else if 0 = interval (settled w s)
      then (wait_event s # reload_events w s @ [Logged LOG ''Nothing to do, sleep zzzzZZZZ''],
            Continue (deliver (hup_late w) (term_late w) (settled w s)))
      else (wait_event s # reload_events w s @ fst (rage_pass w (settled w s)),
            snd (rage_pass w (settled w s))))"
proof (cases "got_sighup (woken w s)")
  case True
  then show ?thesis
    unfolding iteration_def Let_def settled_def reload_events_def wait_event_def
      woken_def [symmetric]
    by (simp only: if_True case_prod_beta append_Cons append_Nil fst_conv snd_conv)
next
  case False
  then show ?thesis
    unfolding iteration_def Let_def settled_def reload_events_def wait_event_def
      woken_def [symmetric]
    by (simp only: if_False case_prod_beta append_Cons append_Nil fst_conv snd_conv)
qed

lemma iteration_events:
  "fst (iteration w s) =
     (if rc w AND WL_POSTMASTER_DEATH \<noteq> 0 then [wait_event s]
      else if got_sigterm (settled w s)
      then wait_event s # reload_events w s
             @ [Logged LOG ''bgworker pg_rage_terminator signal: processed SIGTERM'']
      else if 0 = interval (settled w s)
      then wait_event s # reload_events w s @ [Logged LOG ''Nothing to do, sleep zzzzZZZZ'']
      else wait_event s # reload_events w s @ fst (rage_pass w (settled w s)))"
  by (simp only: iteration_unfold if_distrib [of fst] fst_conv)

lemma iteration_outcome:
  "snd (iteration w s) =
     (if rc w AND WL_POSTMASTER_DEATH \<noteq> 0 then ProcExit 1 (woken w s)
      else if got_sigterm (settled w s) then ProcExit 0 (settled w s)
      else if 0 = interval (settled w s)
      then Continue (deliver (hup_late w) (term_late w) (settled w s))
      else snd (rage_pass w (settled w s)))"
  by (simp only: iteration_unfold if_distrib [of snd] snd_conv)

lemma woken_simps [simp]:
  "got_sigterm (woken w s) = (term_arrived w \<or> got_sigterm s)"
  "got_sighup (woken w s) = (hup_arrived w \<or> got_sighup s)"
  "chance (woken w s) = chance s"
  "interval (woken w s) = interval s"
  "buf (woken w s) = buf s"
  by (simp_all add: woken_def)

lemma settled_sigterm [simp]:
  "got_sigterm (settled w s) = (term_arrived w \<or> got_sigterm s)"
  by (simp add: settled_def)

lemma settled_sighup [simp]: "got_sighup (settled w s) = False"
  by (simp add: settled_def)

lemma settled_chance:
  "chance (settled w s) =
     (if hup_arrived w \<or> got_sighup s
      then set_config_int (fst pg_rage_terminator_load_params) (conf_chance w) (chance s)
      else chance s)"
  by (simp add: settled_def)

lemma settled_interval:
  "interval (settled w s) =
     (if hup_arrived w \<or> got_sighup s
      then set_config_int (snd pg_rage_terminator_load_params) (conf_interval w) (interval s)
      else interval s)"
  by (simp add: settled_def)

lemma settled_buf:
  "buf (settled w s) =
     (if chance (settled w s) = chance s then buf s
      else fst (pg_rage_terminator_build_query [] (chance (settled w s))))"
  by (simp add: settled_def process_sighup_buf)

lemma reload_events_eq:
  "reload_events w s =
     (if hup_arrived w \<or> got_sighup s
      then Logged LOG ''bgworker pg_rage_terminator signal: processed SIGHUP''
           # (if chance (settled w s) = chance s then []
              else [Logged DEBUG1 (''Kill query is: ''
                      @ fst (pg_rage_terminator_build_query [] (chance (settled w s))))])
      else [])"
  by (simp add: reload_events_def settled_def process_sighup_events build_query_events)

lemma reload_events_no_scan: "e \<in> set (reload_events w s) \<Longrightarrow> \<not> is_Executed e"
  by (auto simp: reload_events_eq split: if_splits)

lemma state_of_iteration:
  "state_of (snd (iteration w s)) =
     (if rc w AND WL_POSTMASTER_DEATH \<noteq> 0 then woken w s
      else if got_sigterm (settled w s) \<or> (0 \<noteq> interval (settled w s) \<and> spi_ret w \<noteq> SPI_OK_SELECT)
      then settled w s
      else deliver (hup_late w) (term_late w) (settled w s))"
  by (simp add: iteration_outcome rage_pass_outcome)

lemma rage_pass_has_scan: "\<exists>e \<in> set (fst (rage_pass w s)). is_Executed e"
  by (simp add: rage_pass_events)

lemma main_loop_exit:
  "\<not> got_sigterm s \<Longrightarrow> exit_code (snd (iteration w s)) \<noteq> None
     \<Longrightarrow> main_loop (w # ws) s = iteration w s"
  by (cases "iteration w s"; cases "snd (iteration w s)") auto

lemma sample_rc [simp]:
  "rc wakeup_quiet AND WL_POSTMASTER_DEATH = 0"
  "rc wakeup_death AND WL_POSTMASTER_DEATH \<noteq> 0"
  "rc wakeup_signals AND WL_POSTMASTER_DEATH = 0"
  by (simp_all add: wakeup_quiet_def wakeup_death_def wakeup_signals_def
      WL_LATCH_SET_def WL_TIMEOUT_def WL_POSTMASTER_DEATH_def)

subsection \<open>The loop while \<^verbatim>\<open>interval\<close> stays 0\<close>

lemma disabled_iteration:
  assumes "interval s = 0"
    and "set_config_int (snd pg_rage_terminator_load_params) (conf_interval w) 0 = 0"
  shows "interval (state_of (snd (iteration w s))) = 0"
    and "\<forall>e \<in> set (fst (iteration w s)). \<not> is_Executed e \<and> (is_Waited e \<longrightarrow> e = Waited 10000)"
proof -
  have i: "interval (settled w s) = 0"
    using assms by (simp add: settled_interval)
  then show "interval (state_of (snd (iteration w s))) = 0"
    using assms by (simp add: state_of_iteration)
  have "\<not> is_Executed e \<and> \<not> is_Waited e" if "e \<in> set (reload_events w s)" for e
    using that by (auto simp: reload_events_eq split: if_splits)
  with i assms show "\<forall>e \<in> set (fst (iteration w s)).
      \<not> is_Executed e \<and> (is_Waited e \<longrightarrow> e = Waited 10000)"
    by (auto simp: iteration_events wait_event_def)
qed

lemma disabled_main_loop:
  "interval s = 0 \<Longrightarrow>
   \<forall>w \<in> set ws. set_config_int (snd pg_rage_terminator_load_params) (conf_interval w) 0 = 0 \<Longrightarrow>
   \<forall>e \<in> set (fst (main_loop ws s)). \<not> is_Executed e \<and> (is_Waited e \<longrightarrow> e = Waited 10000)"
proof (induction ws arbitrary: s)
  case Nil
  then show ?case by simp
next
  case (Cons w ws)
  show ?case
  proof (cases "got_sigterm s")
    case True
    then show ?thesis by simp
  next
    case False
    obtain ev out where it: "iteration w s = (ev, out)" by (cases "iteration w s")
    from Cons.prems have k: "set_config_int (snd pg_rage_terminator_load_params) (conf_interval w) 0 = 0"
      by simp
    from disabled_iteration [OF Cons.prems(1) k] it
    have st: "interval (state_of out) = 0"
      and ev: "\<forall>e \<in> set ev. \<not> is_Executed e \<and> (is_Waited e \<longrightarrow> e = Waited 10000)"
      by simp_all
    show ?thesis
    proof (cases out)
      case (Continue s')
      with st have "interval s' = 0" by simp
      from Cons.IH [OF this] Cons.prems(2)
      have "\<forall>e \<in> set (fst (main_loop ws s')). \<not> is_Executed e \<and> (is_Waited e \<longrightarrow> e = Waited 10000)"
        by simp
      with ev False it Continue show ?thesis
        by (auto split: prod.splits)
    next
      case (ProcExit n s')
      with ev False it show ?thesis by simp
    qed
  qed
qed

lemma sample_rc0 [simp]:
  "rc wakeup_keep0 AND WL_POSTMASTER_DEATH = 0"
  "rc wakeup_hup0 AND WL_POSTMASTER_DEATH = 0"
  "rc wakeup_term0 AND WL_POSTMASTER_DEATH = 0"
  by (simp_all add: wakeup_quiet_def wakeup_keep0_def wakeup_hup0_def wakeup_term0_def
      WL_LATCH_SET_def WL_TIMEOUT_def WL_POSTMASTER_DEATH_def)

subsection \<open>The buffer holds the query for the current \<^verbatim>\<open>chance\<close>\<close>

lemma process_sighup_build:
  "(\<exists>e \<in> set (fst (process_sighup w s)). is_build e)
     \<longleftrightarrow> chance (snd (process_sighup w s)) \<noteq> chance s"
  by (simp add: process_sighup_events build_query_events)

lemma iteration_query_inv:
  assumes "buf s = kill_query (chance s)"
  shows "buf (state_of (snd (iteration w s))) = kill_query (chance (state_of (snd (iteration w s))))"
proof -
  from assms have "buf (settled w s) = kill_query (chance (settled w s))"
    by (simp add: settled_buf kill_query_def)
  with assms show ?thesis
    by (simp add: state_of_iteration)
qed

lemma iteration_executes:
  assumes "e \<in> set (fst (iteration w s))" and "is_Executed e"
  shows "e = Executed (buf (state_of (snd (iteration w s))))"
proof -
  have r: "\<not> is_Executed e'" if "e' \<in> set (reload_events w s)" for e'
    using that by (rule reload_events_no_scan)
  have l: "\<not> is_Executed (rage_line k)" for k
    by (simp add: rage_line_def)
  from assms r l show ?thesis
    by (auto simp: iteration_events state_of_iteration rage_pass_events wait_event_def
        split: if_splits)
qed

lemma iteration_builds_first:
  assumes "rc w AND WL_POSTMASTER_DEATH = 0"
  shows "\<exists>rest. fst (iteration w s) = wait_event s # reload_events w s @ rest
           \<and> (\<forall>e \<in> set rest. \<not> is_build e)
           \<and> (\<forall>e \<in> set (wait_event s # reload_events w s). \<not> is_Executed e)"
proof -
  have l: "\<not> is_build (rage_line k)" for k by (simp add: rage_line_def)
  have r: "\<forall>e \<in> set (wait_event s # reload_events w s). \<not> is_Executed e"
    by (auto simp: wait_event_def dest: reload_events_no_scan)
  consider (stop) "got_sigterm (settled w s)"
    | (off) "\<not> got_sigterm (settled w s)" "0 = interval (settled w s)"
    | (pass) "\<not> got_sigterm (settled w s)" "0 \<noteq> interval (settled w s)"
    by blast
  then show ?thesis
  proof cases
    case stop
    with assms have "fst (iteration w s) = wait_event s # reload_events w s
        @ [Logged LOG ''bgworker pg_rage_terminator signal: processed SIGTERM'']"
      by (simp add: iteration_events)
    with r show ?thesis by auto
  next
    case off
    with assms have "fst (iteration w s) = wait_event s # reload_events w s
        @ [Logged LOG ''Nothing to do, sleep zzzzZZZZ'']"
      by (simp add: iteration_events)
    with r show ?thesis by auto
  next
    case pass
    with assms have "fst (iteration w s) = wait_event s # reload_events w s
        @ fst (rage_pass w (settled w s))"
      by (simp add: iteration_events)
    moreover have "\<forall>e \<in> set (fst (rage_pass w (settled w s))). \<not> is_build e"
      by (auto simp: rage_pass_events l)
    ultimately show ?thesis using r by blast
  qed
qed

lemma main_loop_snd:
  "snd (main_loop (w # ws) s) =
     (if got_sigterm s then ProcExit 0 s
      else (case snd (iteration w s) of
              Continue s' \<Rightarrow> snd (main_loop ws s')
            | ProcExit n s' \<Rightarrow> ProcExit n s'))"
  by (cases "iteration w s"; cases "snd (iteration w s)") (auto split: prod.splits)

lemma main_loop_query_inv:
  "buf s = kill_query (chance s) \<Longrightarrow>
   buf (state_of (snd (main_loop ws s))) = kill_query (chance (state_of (snd (main_loop ws s))))"
proof (induction ws arbitrary: s)
  case Nil
  then show ?case by simp
next
  case (Cons w ws)
  from iteration_query_inv [OF Cons.prems, of w]
  have inv: "buf (state_of (snd (iteration w s))) =
      kill_query (chance (state_of (snd (iteration w s))))" .
  show ?case
  proof (cases "snd (iteration w s)")
    case (Continue s')
    with inv have "buf s' = kill_query (chance s')" by simp
    from Cons.IH [OF this] Cons.prems Continue show ?thesis
      by (simp add: main_loop_snd del: main_loop.simps)
  next
    case (ProcExit n s')
    with inv Cons.prems show ?thesis
      by (simp add: main_loop_snd del: main_loop.simps)
  qed
qed

lemma sample_rc5 [simp]:
  "rc wakeup_chance50 AND WL_POSTMASTER_DEATH = 0"
  "rc wakeup_interval7 AND WL_POSTMASTER_DEATH = 0"
  by (simp_all add: wakeup_quiet_def wakeup_chance50_def wakeup_interval7_def
      WL_LATCH_SET_def WL_TIMEOUT_def WL_POSTMASTER_DEATH_def)

subsection \<open>The pass of the query and the end of the loop\<close>

lemma sample_rc9 [simp]:
  "rc wakeup_spi_error AND WL_POSTMASTER_DEATH = 0"
  "rc wakeup_term AND WL_POSTMASTER_DEATH = 0"
  "rc wakeup_hup AND WL_POSTMASTER_DEATH = 0"
  by (simp_all add: wakeup_quiet_def wakeup_spi_error_def wakeup_term_def wakeup_hup_def
      WL_LATCH_SET_def WL_TIMEOUT_def WL_POSTMASTER_DEATH_def)

lemma reload_events_props:
  "e \<in> set (reload_events w s) \<Longrightarrow> \<not> is_Executed e \<and> \<not> is_fatal e \<and> \<not> is_Waited e"
  by (auto simp: reload_events_eq split: if_splits)

lemma filter_reload_events [simp]:
  "filter is_Executed (reload_events w s) = []"
  by (simp add: filter_empty_conv reload_events_props)







lemma idle_facts:
  "chance worker_idle = 10" "interval worker_idle = 5" "buf worker_idle = kill_query 10"
  "\<not> got_sigterm worker_idle" "\<not> got_sighup worker_idle"
  by (simp_all add: worker_idle_def kill_query_def)

lemma settled_idle_quiet:
  "\<not> hup_arrived w \<Longrightarrow> \<not> term_arrived w \<Longrightarrow> settled w worker_idle = worker_idle"
  by (simp add: settled_def woken_def deliver_def idle_facts)

lemma sample_pids: "fmt_d 4711 = ''4711''" "fmt_d 815 = ''815''"
  by (simp_all add: fmt_d_def digits.simps char_of_def bit_Suc_0_iff)

lemma header_of_8: "char_of (19::nat) = CHR 0x13"
  by (simp add: char_of_def bit_Suc_0_iff)

lemma sample_datums:
  "cstring (text_datum ''10.0.0.7'') = CHR 0x13 # ''10.0.0.7''"
  "cstring (text_datum ''10.0.0.9'' @ ''xy'') = CHR 0x13 # ''10.0.0.9xy''"
  by (simp_all add: cstring_def text_datum_def header_of_8)

lemma sample_lines:
  "rage_line (kill_select (backend_a, u)) =
     Logged LOG (''Rage terminated connection with PID 4711 shop/alice/''
       @ CHR 0x13 # ''10.0.0.7'')"
  "rage_line (kill_select (backend_b, u)) =
     Logged LOG (''Rage terminated connection with PID 815 none/none/''
       @ CHR 0x13 # ''10.0.0.9xy'')"
  by (simp_all add: rage_line_def kill_select_def backend_a_def backend_b_def or_none_def
      sample_pids sample_datums)

lemma sample_rows:
  "kill_rows 10 (activity wakeup_quiet) =
     [kill_select (backend_a, 1 / 50), kill_select (backend_b, 1 / 25)]"
  by (simp add: kill_rows_def kill_where_def chance_hit_iff wakeup_quiet_def
      backend_a_def backend_b_def)

lemma main_loop_clean_exit:
  "exit_code (snd (main_loop ws s)) = Some 0 \<Longrightarrow> got_sigterm (state_of (snd (main_loop ws s)))"
proof (induction ws arbitrary: s)
  case Nil
  then show ?case by (simp split: if_splits)
next
  case (Cons w ws)
  show ?case
  proof (cases "got_sigterm s")
    case True
    then show ?thesis by simp
  next
    case False
    show ?thesis
    proof (cases "snd (iteration w s)")
      case (Continue s')
      with False Cons.prems have "exit_code (snd (main_loop ws s')) = Some 0"
        by (simp add: main_loop_snd del: main_loop.simps)
      from Cons.IH [OF this] False Continue show ?thesis
        by (simp add: main_loop_snd del: main_loop.simps)
    next
      case (ProcExit n s')
      with False Cons.prems have n: "n = 0"
        by (simp add: main_loop_snd del: main_loop.simps)
      have "got_sigterm s'"
      proof (rule ccontr)
        assume "\<not> got_sigterm s'"
        with ProcExit n show False
          by (auto simp: iteration_outcome rage_pass_outcome split: if_splits)
      qed
      with False ProcExit show ?thesis
        by (simp add: main_loop_snd del: main_loop.simps)
    qed
  qed
qed

section \<open>Selection by the kill query\<close>

text \<open>
  C7. A pass of the query built for \<^verbatim>\<open>chance = 0\<close> selects no connection, whatever the
  connections are and whatever value in \<open>[0,100)\<close> the scaled draw \<^verbatim>\<open>random() * 100\<close> takes
  for each of them: the result table of \<^verbatim>\<open>SPI_execute\<close> is empty.
\<close>

theorem chance_zero_selects_none:
  assumes "\<forall>bu \<in> set (activity w). 0 \<le> snd bu * 100 \<and> snd bu * 100 < 100"
  shows "snd (SPI_execute (fst (pg_rage_terminator_build_query [] 0)) w) = []"
proof -
  have "\<not> kill_where 0 bu" if "bu \<in> set (activity w)" for bu
  proof -
    from assms that have "0 \<le> snd bu * 100" by blast
    then show ?thesis by (simp add: kill_where_def chance_hit_iff)
  qed
  then have "filter (kill_where 0) (activity w) = []"
    by (simp add: filter_empty_conv)
  then show ?thesis
    by (simp add: SPI_execute_build kill_rows_def)
qed

text \<open>The same on the sample wakeup, whose two connections both have a client port.\<close>

theorem chance_zero_selects_none_witness:
  "activity wakeup_quiet = [(backend_a, 1 / 50), (backend_b, 1 / 25)]
   \<and> client_port backend_a \<noteq> None \<and> client_port backend_b \<noteq> None
   \<and> snd (SPI_execute (fst (pg_rage_terminator_build_query [] 0)) wakeup_quiet) = []"
proof -
  have h: "\<forall>bu \<in> set (activity wakeup_quiet). 0 \<le> snd bu * 100 \<and> snd bu * 100 < 100"
    by (simp add: wakeup_quiet_def)
  have "activity wakeup_quiet = [(backend_a, 1 / 50), (backend_b, 1 / 25)]"
    and "client_port backend_a \<noteq> None" and "client_port backend_b \<noteq> None"
    by (simp_all add: wakeup_quiet_def backend_a_def backend_b_def)
  with chance_zero_selects_none [OF h] show ?thesis by blast
qed

text \<open>
  C1. With \<^verbatim>\<open>chance = 100\<close> the query does not select every client connection for every
  draw in \<open>[0,100)\<close>: for the connection \<open>backend_a\<close>, which has a client port, and the
  draw \<open>99.75\<close> the cast gives \<open>100\<close>, the comparison \<open>100 < 100\<close> fails and the result table
  is empty.
\<close>

theorem chance_100_draw_missed:
  "client_port backend_a \<noteq> None
   \<and> (0::real) \<le> 399 / 400 * 100 \<and> (399 / 400 * 100 :: real) < 100
   \<and> snd (SPI_execute (fst (pg_rage_terminator_build_query [] 100))
        (wakeup_quiet\<lparr>activity := [(backend_a, 399 / 400)]\<rparr>)) = []"
  by (simp add: SPI_execute_build kill_rows_def kill_where_def chance_hit_iff
      wakeup_quiet_def backend_a_def)

text \<open>
  C10, as stated, fails at the lower end of the interval: for \<^verbatim>\<open>chance = 1\<close> the draw
  \<open>1/2\<close> lies in \<open>[c - 1/2, c)\<close> and is selected, because the cast sends \<open>1/2\<close> to the even
  integer \<open>0\<close>.
\<close>

theorem half_draw_selected_counterexample:
  "(1::int) \<le> 1 \<and> (1::int) \<le> 100
   \<and> (0::real) \<le> 1 / 200 * 100 \<and> (1 / 200 * 100 :: real) < 100
   \<and> of_int 1 - 1 / 2 \<le> (1 / 200 * 100 :: real) \<and> (1 / 200 * 100 :: real) < of_int 1
   \<and> chance_hit 1 (1 / 200)"
  by (simp add: chance_hit_iff)

text \<open>
  C10, amended. For every \<^verbatim>\<open>chance\<close> \<open>c\<close> in \<open>[1,100]\<close>: a scaled draw above \<open>c - 1/2\<close>
  is not selected; the draw \<open>c - 1/2\<close> itself is selected exactly when \<open>c\<close> is odd (the
  cast rounds a tie to the even integer); and the scaled draws in \<open>[0,100)\<close> that are
  selected are exactly the interval from \<open>0\<close> to \<open>c - 1/2\<close>, with its upper end when \<open>c\<close>
  is odd. The interval has length \<open>c - 1/2\<close>, not \<open>c\<close>.
\<close>

theorem chance_hit_draws:
  assumes "1 \<le> c" and "c \<le> 100"
  shows "(\<forall>u. of_int c - 1 / 2 < u * 100 \<longrightarrow> \<not> chance_hit c u)
    \<and> (\<forall>u. u * 100 = of_int c - 1 / 2 \<longrightarrow> (chance_hit c u \<longleftrightarrow> odd c))
    \<and> {u * 100 | u. 0 \<le> u * 100 \<and> u * 100 < 100 \<and> chance_hit c u}
        = {0 ..< of_int c - 1 / 2} \<union> (if odd c then {of_int c - 1 / 2} else {})"
proof (intro conjI allI impI)
  fix u :: real
  assume "of_int c - 1 / 2 < u * 100"
  then show "\<not> chance_hit c u" by (simp add: chance_hit_iff)
next
  fix u :: real
  assume "u * 100 = of_int c - 1 / 2"
  then show "chance_hit c u \<longleftrightarrow> odd c" by (simp add: chance_hit_iff)
next
  have c: "(1::real) \<le> of_int c" "of_int c \<le> (100::real)"
    using assms by simp_all
  show "{u * 100 | u. 0 \<le> u * 100 \<and> u * 100 < 100 \<and> chance_hit c u}
        = {0 ..< of_int c - 1 / 2} \<union> (if odd c then {of_int c - 1 / 2} else {})"
    (is "?L = ?R")
  proof (rule set_eqI)
    fix r :: real
    show "r \<in> ?L \<longleftrightarrow> r \<in> ?R"
    proof
      assume "r \<in> ?L"
      then obtain u where "r = u * 100" "0 \<le> u * 100" "chance_hit c u" by blast
      then show "r \<in> ?R" by (auto simp: chance_hit_iff)
    next
      assume r: "r \<in> ?R"
      then have bounds: "0 \<le> r" "r < 100"
        using c by (auto split: if_splits)
      have "chance_hit c (r / 100)"
        using r by (auto simp: chance_hit_iff split: if_splits)
      with bounds
      have "r = r / 100 * 100 \<and> 0 \<le> r / 100 * 100 \<and> r / 100 * 100 < 100
              \<and> chance_hit c (r / 100)"
        by simp
      then show "r \<in> ?L" by blast
    qed
  qed
qed

text \<open>At \<^verbatim>\<open>chance = 50\<close>: the draw \<open>49.75\<close> is not selected, and neither is \<open>49.5\<close>.\<close>

theorem chance_hit_draws_witness:
  "(1::int) \<le> 50 \<and> (50::int) \<le> 100 \<and> of_int 50 - 1 / 2 < (199 / 400 * 100 :: real)
   \<and> (199 / 400 * 100 :: real) < 50 \<and> \<not> chance_hit 50 (199 / 400)
   \<and> chance_hit 50 (99 / 200) = odd (50::int)"
proof -
  have a: "(1::int) \<le> 50" and b: "(50::int) \<le> 100" by simp_all
  have d: "of_int 50 - 1 / 2 < (199 / 400 * 100 :: real)" by simp
  have e: "(99 / 200 * 100 :: real) = of_int 50 - 1 / 2" by simp
  from chance_hit_draws [OF a b] d e
  have "\<not> chance_hit 50 (199 / 400)" and "chance_hit 50 (99 / 200) = odd (50::int)"
    by blast+
  then show ?thesis by simp
qed

section \<open>The range of the parameters\<close>

text \<open>
  C2. The minimum registered for \<^verbatim>\<open>interval\<close> is \<open>-1\<close>, so a configuration file that sets
  it to \<open>-1\<close> is accepted: after the reload the worker's \<^verbatim>\<open>interval\<close> is \<open>-1\<close>, and
  the next iteration calls \<^verbatim>\<open>WaitLatch\<close> with a timeout of \<open>-1000\<close> milliseconds.
\<close>

theorem interval_minus_one_accepted:
  "interval (snd (process_sighup (w\<lparr>conf_interval := Some (- 1)\<rparr>) s)) = - 1
   \<and> wait_event (snd (process_sighup (w\<lparr>conf_interval := Some (- 1)\<rparr>) s)) = Waited (- 1000)"
  by (simp add: wait_event_def set_config_int_def pg_rage_terminator_load_params_def)

section \<open>The order of the checks in the loop body\<close>

text \<open>
  C3. After \<^verbatim>\<open>WaitLatch\<close> returns, the death of the postmaster is tested first: the
  iteration then consists of the wait alone and the process exits with status 1, whatever
  the flags are. Otherwise a pending SIGHUP is processed and logged right after the wait,
  and a pending SIGTERM then ends the iteration with its log line and exit status 0, with
  no query executed. In both cases the loop ends with this iteration, whatever inputs
  would follow.
\<close>

theorem iteration_check_order:
  "(rc w AND WL_POSTMASTER_DEATH \<noteq> 0 \<longrightarrow>
      iteration w s = ([wait_event s], ProcExit 1 (woken w s)))
   \<and> (rc w AND WL_POSTMASTER_DEATH = 0 \<and> (got_sigterm s \<or> term_arrived w) \<longrightarrow>
        exit_code (snd (iteration w s)) = Some 0
        \<and> (\<forall>e \<in> set (fst (iteration w s)). \<not> is_Executed e)
        \<and> fst (iteration w s) =
            wait_event s # reload_events w s
              @ [Logged LOG ''bgworker pg_rage_terminator signal: processed SIGTERM''])
   \<and> (rc w AND WL_POSTMASTER_DEATH = 0 \<and> (got_sighup s \<or> hup_arrived w) \<longrightarrow>
        take 2 (fst (iteration w s)) =
          [wait_event s, Logged LOG ''bgworker pg_rage_terminator signal: processed SIGHUP''])
   \<and> (\<not> got_sigterm s \<and> (rc w AND WL_POSTMASTER_DEATH \<noteq> 0 \<or> term_arrived w) \<longrightarrow>
        main_loop (w # ws) s = iteration w s)"
proof (intro conjI impI)
  assume "rc w AND WL_POSTMASTER_DEATH \<noteq> 0"
  then show "iteration w s = ([wait_event s], ProcExit 1 (woken w s))"
    by (simp add: iteration_unfold)
next
  assume a: "rc w AND WL_POSTMASTER_DEATH = 0 \<and> (got_sigterm s \<or> term_arrived w)"
  then have t: "got_sigterm (settled w s)" by auto
  from a t show "exit_code (snd (iteration w s)) = Some 0"
    by (simp add: iteration_outcome)
  from a t show ev: "fst (iteration w s) =
            wait_event s # reload_events w s
              @ [Logged LOG ''bgworker pg_rage_terminator signal: processed SIGTERM'']"
    by (simp add: iteration_events)
  show "\<forall>e \<in> set (fst (iteration w s)). \<not> is_Executed e"
    unfolding ev by (auto simp: wait_event_def dest: reload_events_no_scan)
next
  assume a: "rc w AND WL_POSTMASTER_DEATH = 0 \<and> (got_sighup s \<or> hup_arrived w)"
  then obtain rest where "reload_events w s =
      Logged LOG ''bgworker pg_rage_terminator signal: processed SIGHUP'' # rest"
    by (auto simp: reload_events_eq)
  with a show "take 2 (fst (iteration w s)) =
          [wait_event s, Logged LOG ''bgworker pg_rage_terminator signal: processed SIGHUP'']"
    by (simp add: iteration_events)
next
  assume a: "\<not> got_sigterm s \<and> (rc w AND WL_POSTMASTER_DEATH \<noteq> 0 \<or> term_arrived w)"
  then have "exit_code (snd (iteration w s)) \<noteq> None"
    by (auto simp: iteration_outcome)
  with a show "main_loop (w # ws) s = iteration w s"
    by (blast intro: main_loop_exit)
qed

text \<open>
  On the sample worker, with both signals delivered during the wait: with the postmaster
  dead nothing but the wait happens; with the postmaster alive SIGHUP is logged, then
  SIGTERM, and the loop does not go on to the next wakeup.
\<close>

theorem iteration_check_order_witness:
  "iteration wakeup_death worker_idle =
     ([Waited 5000], ProcExit 1 (worker_idle\<lparr>got_sigterm := True, got_sighup := True\<rparr>))
   \<and> exit_code (snd (iteration wakeup_signals worker_idle)) = Some 0
   \<and> fst (iteration wakeup_signals worker_idle) =
       [Waited 5000,
        Logged LOG ''bgworker pg_rage_terminator signal: processed SIGHUP'',
        Logged LOG ''bgworker pg_rage_terminator signal: processed SIGTERM'']
   \<and> main_loop [wakeup_signals, wakeup_quiet] worker_idle = iteration wakeup_signals worker_idle"
proof -
  have idle: "\<not> got_sigterm worker_idle" "\<not> got_sighup worker_idle"
    "interval worker_idle = 5" "chance worker_idle = 10"
    by (simp_all add: worker_idle_def)
  have sig: "term_arrived wakeup_signals" "hup_arrived wakeup_signals"
    "conf_chance wakeup_signals = None"
    "term_arrived wakeup_death" "hup_arrived wakeup_death"
    by (simp_all add: wakeup_signals_def wakeup_death_def wakeup_quiet_def)
  have w: "wait_event worker_idle = Waited 5000"
    by (simp add: wait_event_def idle)
  have k: "woken wakeup_death worker_idle = worker_idle\<lparr>got_sigterm := True, got_sighup := True\<rparr>"
    by (simp add: woken_def deliver_def sig pg_rage_terminator_sigterm_def
        pg_rage_terminator_sighup_def)
  have r: "reload_events wakeup_signals worker_idle =
      [Logged LOG ''bgworker pg_rage_terminator signal: processed SIGHUP'']"
    by (simp add: reload_events_eq settled_chance sig idle set_config_int_def
        pg_rage_terminator_load_params_def)
  from iteration_check_order [of wakeup_death worker_idle]
  have 1: "iteration wakeup_death worker_idle =
     ([Waited 5000], ProcExit 1 (worker_idle\<lparr>got_sigterm := True, got_sighup := True\<rparr>))"
    by (simp add: w k)
  from iteration_check_order [of wakeup_signals worker_idle "[wakeup_quiet]"]
  have 2: "exit_code (snd (iteration wakeup_signals worker_idle)) = Some 0"
    and 3: "fst (iteration wakeup_signals worker_idle) =
       [Waited 5000,
        Logged LOG ''bgworker pg_rage_terminator signal: processed SIGHUP'',
        Logged LOG ''bgworker pg_rage_terminator signal: processed SIGTERM'']"
    and 4: "main_loop [wakeup_signals, wakeup_quiet] worker_idle = iteration wakeup_signals worker_idle"
    by (simp_all add: sig idle w r)
  from 1 2 3 4 show ?thesis by blast
qed

section \<open>The disabled worker\<close>

text \<open>
  C4. An iteration that ends with \<^verbatim>\<open>interval = 0\<close> has executed no query. An iteration
  entered with \<^verbatim>\<open>interval = 0\<close> waits the fixed 10 seconds. Over any number of iterations
  in which \<^verbatim>\<open>interval\<close> is 0 and every configuration file read leaves it at 0, no query
  is ever executed and every wait is of 10 seconds. In that state the worker still
  processes SIGHUP (logs it and applies the file's settings) and SIGTERM (logs it and
  exits with status 0).
\<close>

theorem disabled_never_scans:
  "(interval (state_of (snd (iteration w s))) = 0 \<longrightarrow>
      (\<forall>e \<in> set (fst (iteration w s)). \<not> is_Executed e))
   \<and> (interval s = 0 \<longrightarrow> hd (fst (iteration w s)) = Waited 10000)
   \<and> (interval s = 0
       \<and> (\<forall>w \<in> set ws.
            set_config_int (snd pg_rage_terminator_load_params) (conf_interval w) 0 = 0) \<longrightarrow>
        (\<forall>e \<in> set (fst (main_loop ws s)).
           \<not> is_Executed e \<and> (is_Waited e \<longrightarrow> e = Waited 10000)))
   \<and> (interval s = 0 \<and> rc w AND WL_POSTMASTER_DEATH = 0 \<and> (got_sighup s \<or> hup_arrived w) \<longrightarrow>
        Logged LOG ''bgworker pg_rage_terminator signal: processed SIGHUP''
          \<in> set (fst (iteration w s))
        \<and> chance (state_of (snd (iteration w s))) =
            set_config_int (fst pg_rage_terminator_load_params) (conf_chance w) (chance s)
        \<and> interval (state_of (snd (iteration w s))) =
            set_config_int (snd pg_rage_terminator_load_params) (conf_interval w) 0)
   \<and> (interval s = 0 \<and> rc w AND WL_POSTMASTER_DEATH = 0 \<and> (got_sigterm s \<or> term_arrived w) \<longrightarrow>
        exit_code (snd (iteration w s)) = Some 0
        \<and> last (fst (iteration w s)) =
            Logged LOG ''bgworker pg_rage_terminator signal: processed SIGTERM'')"
proof (intro conjI impI)
  assume a: "interval (state_of (snd (iteration w s))) = 0"
  show "\<forall>e \<in> set (fst (iteration w s)). \<not> is_Executed e"
  proof (cases "rc w AND WL_POSTMASTER_DEATH \<noteq> 0")
    case True
    then show ?thesis by (simp add: iteration_events wait_event_def)
  next
    case False
    with a have "interval (settled w s) = 0"
      by (simp add: state_of_iteration split: if_splits)
    with False show ?thesis
      by (auto simp: iteration_events wait_event_def dest: reload_events_no_scan)
  qed
next
  assume "interval s = 0"
  then show "hd (fst (iteration w s)) = Waited 10000"
    by (simp add: iteration_events wait_event_def)
next
  assume "interval s = 0
       \<and> (\<forall>w \<in> set ws.
            set_config_int (snd pg_rage_terminator_load_params) (conf_interval w) 0 = 0)"
  then show "\<forall>e \<in> set (fst (main_loop ws s)).
           \<not> is_Executed e \<and> (is_Waited e \<longrightarrow> e = Waited 10000)"
    using disabled_main_loop by blast
next
  assume a: "interval s = 0 \<and> rc w AND WL_POSTMASTER_DEATH = 0 \<and> (got_sighup s \<or> hup_arrived w)"
  then show "Logged LOG ''bgworker pg_rage_terminator signal: processed SIGHUP''
          \<in> set (fst (iteration w s))"
    by (auto simp: iteration_events reload_events_eq)
  from a show "chance (state_of (snd (iteration w s))) =
            set_config_int (fst pg_rage_terminator_load_params) (conf_chance w) (chance s)"
    by (auto simp: state_of_iteration settled_chance)
  from a show "interval (state_of (snd (iteration w s))) =
            set_config_int (snd pg_rage_terminator_load_params) (conf_interval w) 0"
    by (auto simp: state_of_iteration settled_interval)
next
  assume a: "interval s = 0 \<and> rc w AND WL_POSTMASTER_DEATH = 0 \<and> (got_sigterm s \<or> term_arrived w)"
  then have t: "got_sigterm (settled w s)" by auto
  from a t show "exit_code (snd (iteration w s)) = Some 0"
    by (simp add: iteration_outcome)
  from a t show "last (fst (iteration w s)) =
            Logged LOG ''bgworker pg_rage_terminator signal: processed SIGTERM''"
    by (simp add: iteration_events)
qed

text \<open>
  The disabled sample worker over four wakeups (timeout, SIGHUP, timeout, SIGTERM)
  executes no query; its SIGHUP iteration waits 10 seconds and applies \<^verbatim>\<open>chance = 50\<close>;
  its SIGTERM iteration exits with status 0.
\<close>

theorem disabled_never_scans_witness:
  "interval worker_disabled = 0
   \<and> filter is_Executed
        (fst (main_loop [wakeup_keep0, wakeup_hup0, wakeup_keep0, wakeup_term0] worker_disabled)) = []
   \<and> hd (fst (iteration wakeup_hup0 worker_disabled)) = Waited 10000
   \<and> chance (state_of (snd (iteration wakeup_hup0 worker_disabled))) = 50
   \<and> interval (state_of (snd (iteration wakeup_hup0 worker_disabled))) = 0
   \<and> exit_code (snd (iteration wakeup_term0 worker_disabled)) = Some 0"
proof -
  have d: "interval worker_disabled = 0" "chance worker_disabled = 10"
    by (simp_all add: worker_disabled_def worker_idle_def)
  have c: "conf_interval wakeup_keep0 = Some 0" "conf_interval wakeup_hup0 = Some 0"
    "conf_interval wakeup_term0 = Some 0" "conf_chance wakeup_hup0 = Some 50"
    "hup_arrived wakeup_hup0" "term_arrived wakeup_term0"
    by (simp_all add: wakeup_keep0_def wakeup_hup0_def wakeup_term0_def)
  have k: "\<forall>w \<in> set [wakeup_keep0, wakeup_hup0, wakeup_keep0, wakeup_term0].
      set_config_int (snd pg_rage_terminator_load_params) (conf_interval w) 0 = 0"
    by (simp add: c set_config_int_def pg_rage_terminator_load_params_def)
  from disabled_never_scans
    [of wakeup_hup0 worker_disabled "[wakeup_keep0, wakeup_hup0, wakeup_keep0, wakeup_term0]"] d k
  have 1: "\<forall>e \<in> set (fst (main_loop [wakeup_keep0, wakeup_hup0, wakeup_keep0, wakeup_term0]
              worker_disabled)). \<not> is_Executed e"
    and 2: "hd (fst (iteration wakeup_hup0 worker_disabled)) = Waited 10000"
    and 3: "chance (state_of (snd (iteration wakeup_hup0 worker_disabled))) = 50"
    and 4: "interval (state_of (snd (iteration wakeup_hup0 worker_disabled))) = 0"
    by (simp_all add: c set_config_int_def pg_rage_terminator_load_params_def)
  from disabled_never_scans [of wakeup_term0 worker_disabled "[]"] d
  have 5: "exit_code (snd (iteration wakeup_term0 worker_disabled)) = Some 0"
    by (simp add: c)
  from 1 have "filter is_Executed
        (fst (main_loop [wakeup_keep0, wakeup_hup0, wakeup_keep0, wakeup_term0] worker_disabled)) = []"
    by (simp add: filter_empty_conv)
  with d 2 3 4 5 show ?thesis by blast
qed

section \<open>Reload and the query\<close>

text \<open>
  C5. The block that processes SIGHUP builds the query again exactly when the value of
  \<^verbatim>\<open>chance\<close> after \<^verbatim>\<open>ProcessConfigFile\<close> differs from the value before; when it is the
  same (whatever happens to \<^verbatim>\<open>interval\<close>) the buffer is left as it is, and when it
  differs the buffer becomes the query for the new value. Hence, if the buffer holds the
  query for the current \<^verbatim>\<open>chance\<close> when an iteration starts, it does so when the iteration
  ends, every query the iteration executes is the query for the value of \<^verbatim>\<open>chance\<close> most
  recently applied, and the same holds at the end of any run of the loop and of
  \<^verbatim>\<open>pg_rage_terminator_main\<close>. Within an iteration the build comes first: its events are
  the wait and what the SIGHUP block logs, with no query executed, followed by events
  among which no query is built.
\<close>

theorem query_follows_chance:
  "((\<exists>e \<in> set (fst (process_sighup w s)). is_build e)
      \<longleftrightarrow> chance (snd (process_sighup w s)) \<noteq> chance s)
   \<and> (chance (snd (process_sighup w s)) = chance s \<longrightarrow>
        buf (snd (process_sighup w s)) = buf s)
   \<and> (chance (snd (process_sighup w s)) \<noteq> chance s \<longrightarrow>
        buf (snd (process_sighup w s)) = kill_query (chance (snd (process_sighup w s))))
   \<and> (buf s = kill_query (chance s) \<longrightarrow>
        buf (state_of (snd (iteration w s))) = kill_query (chance (state_of (snd (iteration w s))))
        \<and> (\<forall>e \<in> set (fst (iteration w s)).
              is_Executed e \<longrightarrow> e = Executed (kill_query (chance (state_of (snd (iteration w s)))))))
   \<and> chance (state_of (snd (iteration w s))) =
       (if rc w AND WL_POSTMASTER_DEATH = 0 \<and> (got_sighup s \<or> hup_arrived w)
        then set_config_int (fst pg_rage_terminator_load_params) (conf_chance w) (chance s)
        else chance s)
   \<and> (buf s = kill_query (chance s) \<longrightarrow>
        buf (state_of (snd (main_loop ws s))) = kill_query (chance (state_of (snd (main_loop ws s)))))
   \<and> buf (state_of (snd (pg_rage_terminator_main c i ws))) =
       kill_query (chance (state_of (snd (pg_rage_terminator_main c i ws))))
   \<and> (rc w AND WL_POSTMASTER_DEATH = 0 \<longrightarrow>
        (\<exists>rest. fst (iteration w s) = wait_event s # reload_events w s @ rest
           \<and> (\<forall>e \<in> set rest. \<not> is_build e)
           \<and> (\<forall>e \<in> set (wait_event s # reload_events w s). \<not> is_Executed e)))"
proof (intro conjI impI)
  assume "rc w AND WL_POSTMASTER_DEATH = 0"
  then show "\<exists>rest. fst (iteration w s) = wait_event s # reload_events w s @ rest
           \<and> (\<forall>e \<in> set rest. \<not> is_build e)
           \<and> (\<forall>e \<in> set (wait_event s # reload_events w s). \<not> is_Executed e)"
    by (rule iteration_builds_first)
next
  show "(\<exists>e \<in> set (fst (process_sighup w s)). is_build e)
      \<longleftrightarrow> chance (snd (process_sighup w s)) \<noteq> chance s"
    by (rule process_sighup_build)
next
  assume "chance (snd (process_sighup w s)) = chance s"
  then show "buf (snd (process_sighup w s)) = buf s"
    by (simp add: process_sighup_buf)
next
  assume "chance (snd (process_sighup w s)) \<noteq> chance s"
  then show "buf (snd (process_sighup w s)) = kill_query (chance (snd (process_sighup w s)))"
    by (simp add: process_sighup_buf kill_query_def)
next
  assume inv: "buf s = kill_query (chance s)"
  then show q: "buf (state_of (snd (iteration w s))) =
      kill_query (chance (state_of (snd (iteration w s))))"
    by (rule iteration_query_inv)
  show "\<forall>e \<in> set (fst (iteration w s)).
      is_Executed e \<longrightarrow> e = Executed (kill_query (chance (state_of (snd (iteration w s)))))"
    using iteration_executes [of _ w s] q by auto
next
  show "chance (state_of (snd (iteration w s))) =
       (if rc w AND WL_POSTMASTER_DEATH = 0 \<and> (got_sighup s \<or> hup_arrived w)
        then set_config_int (fst pg_rage_terminator_load_params) (conf_chance w) (chance s)
        else chance s)"
    by (auto simp: state_of_iteration settled_chance)
next
  assume "buf s = kill_query (chance s)"
  then show "buf (state_of (snd (main_loop ws s))) =
      kill_query (chance (state_of (snd (main_loop ws s))))"
    by (rule main_loop_query_inv)
next
  define s0 where "s0 = \<lparr>got_sigterm = False, got_sighup = False, chance = c, interval = i,
    buf = kill_query c\<rparr>"
  have "buf s0 = kill_query (chance s0)" by (simp add: s0_def)
  then have "buf (state_of (snd (main_loop ws s0))) =
      kill_query (chance (state_of (snd (main_loop ws s0))))"
    by (rule main_loop_query_inv)
  moreover have "snd (pg_rage_terminator_main c i ws) = snd (main_loop ws s0)"
    by (simp add: pg_rage_terminator_main_def s0_def kill_query_def Let_def split: prod.splits)
  ultimately show "buf (state_of (snd (pg_rage_terminator_main c i ws))) =
       kill_query (chance (state_of (snd (pg_rage_terminator_main c i ws))))"
    by simp
qed

text \<open>
  On the sample worker (\<^verbatim>\<open>chance = 10\<close>): a reload to \<^verbatim>\<open>chance = 50\<close> builds the query, and
  the pass of that iteration executes the query for 50; a reload that only changes
  \<^verbatim>\<open>interval\<close> builds nothing and leaves the buffer.
\<close>

theorem query_follows_chance_witness:
  "chance worker_idle = 10 \<and> buf worker_idle = kill_query 10
   \<and> chance (snd (process_sighup wakeup_chance50 worker_idle)) = 50
   \<and> filter is_build (fst (process_sighup wakeup_chance50 worker_idle)) \<noteq> []
   \<and> buf (snd (process_sighup wakeup_chance50 worker_idle)) = kill_query 50
   \<and> filter is_Executed (fst (iteration wakeup_chance50 worker_idle)) = [Executed (kill_query 50)]
   \<and> interval (snd (process_sighup wakeup_interval7 worker_idle)) = 7
   \<and> chance (snd (process_sighup wakeup_interval7 worker_idle)) = 10
   \<and> filter is_build (fst (process_sighup wakeup_interval7 worker_idle)) = []
   \<and> buf (snd (process_sighup wakeup_interval7 worker_idle)) = kill_query 10"
proof -
  have idle: "chance worker_idle = 10" "buf worker_idle = kill_query 10"
    "interval worker_idle = 5" "\<not> got_sigterm worker_idle" "\<not> got_sighup worker_idle"
    by (simp_all add: worker_idle_def kill_query_def)
  have c50: "chance (snd (process_sighup wakeup_chance50 worker_idle)) = 50"
    and i50: "interval (snd (process_sighup wakeup_chance50 worker_idle)) = 5"
    and c7: "chance (snd (process_sighup wakeup_interval7 worker_idle)) = 10"
    and i7: "interval (snd (process_sighup wakeup_interval7 worker_idle)) = 7"
    by (simp_all add: wakeup_chance50_def wakeup_interval7_def set_config_int_def
        pg_rage_terminator_load_params_def)
  note a = query_follows_chance [of wakeup_chance50 worker_idle "[]" 10 5]
  note b = query_follows_chance [of wakeup_interval7 worker_idle "[]" 10 5]
  from a c50 idle have 1: "\<exists>e \<in> set (fst (process_sighup wakeup_chance50 worker_idle)). is_build e"
    and 2: "buf (snd (process_sighup wakeup_chance50 worker_idle)) = kill_query 50"
    by simp_all
  from 1 have b1: "filter is_build (fst (process_sighup wakeup_chance50 worker_idle)) \<noteq> []"
    by (simp add: filter_empty_conv)
  from b c7 idle have 3: "\<not> (\<exists>e \<in> set (fst (process_sighup wakeup_interval7 worker_idle)). is_build e)"
    and 4: "buf (snd (process_sighup wakeup_interval7 worker_idle)) = kill_query 10"
    by simp_all
  from 3 have b3: "filter is_build (fst (process_sighup wakeup_interval7 worker_idle)) = []"
    by (simp add: filter_empty_conv)
  have h: "hup_arrived wakeup_chance50" "conf_chance wakeup_chance50 = Some 50"
    "conf_interval wakeup_chance50 = Some 5" "\<not> term_arrived wakeup_chance50"
    "spi_ret wakeup_chance50 = SPI_OK_SELECT"
    by (simp_all add: wakeup_chance50_def wakeup_quiet_def)
  from a idle h have ch: "chance (state_of (snd (iteration wakeup_chance50 worker_idle))) = 50"
    by (simp add: set_config_int_def pg_rage_terminator_load_params_def)
  from a idle ch have ex: "\<forall>e \<in> set (fst (iteration wakeup_chance50 worker_idle)).
      is_Executed e \<longrightarrow> e = Executed (kill_query 50)"
    by simp
  have "filter is_Executed (fst (iteration wakeup_chance50 worker_idle)) = [Executed (kill_query 50)]"
    using ex
    by (simp add: iteration_events idle h settled_interval settled_chance settled_buf
        reload_events_eq rage_pass_events wait_event_def rage_line_def
        set_config_int_def pg_rage_terminator_load_params_def kill_query_def)
  with idle c50 b1 2 i7 c7 b3 4 show ?thesis by blast
qed

section \<open>Failure of the query and failure of a termination\<close>



section \<open>The log lines of a pass\<close>

text \<open>
  C8. The log line of a selected row does not hold the client address as its value. On
  the sample pass, which selects both connections, the loop logs one line for each, with
  the pid, the database name and the user name (or \<^verbatim>\<open>none\<close>); but the last field of the
  line starts with the header byte of the \<^verbatim>\<open>text\<close> value (\<open>0x13\<close> for an address of 8
  characters) and, for the second row, goes on with the two bytes that lie behind the row.
  The line for the first connection is not the line with the fields' values.
\<close>

theorem client_addr_logged_with_header:
  "client_addr backend_a = Some ''10.0.0.7'' \<and> client_addr backend_b = Some ''10.0.0.9''
   \<and> fst (iteration wakeup_quiet worker_idle) =
       [Waited 5000, Executed (kill_query 10),
        Logged LOG (''Rage terminated connection with PID 4711 shop/alice/''
          @ CHR 0x13 # ''10.0.0.7''),
        Logged LOG (''Rage terminated connection with PID 815 none/none/''
          @ CHR 0x13 # ''10.0.0.9xy'')]
   \<and> rage_line (kill_select (backend_a, 1 / 50))
       \<noteq> Logged LOG ''Rage terminated connection with PID 4711 shop/alice/10.0.0.7''"
proof -
  have q: "spi_ret wakeup_quiet = SPI_OK_SELECT" "\<not> hup_arrived wakeup_quiet"
    "\<not> term_arrived wakeup_quiet"
    by (simp_all add: wakeup_quiet_def)
  have sq: "settled wakeup_quiet worker_idle = worker_idle"
    by (simp add: settled_idle_quiet q)
  have "snd (SPI_execute (kill_query 10) wakeup_quiet) = kill_rows 10 (activity wakeup_quiet)"
    by (simp add: kill_query_def SPI_execute_build q)
  then have "fst (iteration wakeup_quiet worker_idle) =
       [Waited 5000, Executed (kill_query 10),
        Logged LOG (''Rage terminated connection with PID 4711 shop/alice/''
          @ CHR 0x13 # ''10.0.0.7''),
        Logged LOG (''Rage terminated connection with PID 815 none/none/''
          @ CHR 0x13 # ''10.0.0.9xy'')]"
    by (simp add: iteration_events rage_pass_events sq idle_facts wait_event_def
        reload_events_def woken_def q sample_rows sample_lines)
  moreover have "client_addr backend_a = Some ''10.0.0.7''"
    and "client_addr backend_b = Some ''10.0.0.9''"
    by (simp_all add: backend_a_def backend_b_def)
  moreover have "rage_line (kill_select (backend_a, 1 / 50))
       \<noteq> Logged LOG ''Rage terminated connection with PID 4711 shop/alice/10.0.0.7''"
    by (simp add: sample_lines)
  ultimately show ?thesis by blast
qed

section \<open>The two flags\<close>

text \<open>
  C9, as stated, fails for the terminate flag: on the sample worker a SIGTERM delivered
  during the wait is acted upon (log line, exit status 0) and \<^verbatim>\<open>got_sigterm\<close> is still set
  in the state the process exits with.
\<close>

theorem sigterm_flag_left_set_counterexample:
  "\<not> got_sigterm worker_idle \<and> term_arrived wakeup_term
   \<and> iteration wakeup_term worker_idle =
       ([Waited 5000, Logged LOG ''bgworker pg_rage_terminator signal: processed SIGTERM''],
        ProcExit 0 (worker_idle\<lparr>got_sigterm := True\<rparr>))
   \<and> got_sigterm (state_of (snd (iteration wakeup_term worker_idle)))"
proof -
  have t: "term_arrived wakeup_term" "\<not> hup_arrived wakeup_term"
    by (simp_all add: wakeup_term_def wakeup_quiet_def)
  have w: "woken wakeup_term worker_idle = worker_idle\<lparr>got_sigterm := True\<rparr>"
    by (simp add: woken_def deliver_def t pg_rage_terminator_sigterm_def)
  have "settled wakeup_term worker_idle = worker_idle\<lparr>got_sigterm := True\<rparr>"
    by (simp add: settled_def t idle_facts w [symmetric])
  then have "iteration wakeup_term worker_idle =
       ([Waited 5000, Logged LOG ''bgworker pg_rage_terminator signal: processed SIGTERM''],
        ProcExit 0 (worker_idle\<lparr>got_sigterm := True\<rparr>))"
    by (simp add: iteration_unfold reload_events_def t idle_facts wait_event_def)
  with t idle_facts show ?thesis by simp
qed

text \<open>
  C9, amended. The reload flag is cleared by the loop when the reload is applied: a
  pending SIGHUP is logged and \<^verbatim>\<open>got_sighup\<close> is false after the block, and at the end of
  an iteration it is set only if a SIGHUP arrived after the flags were tested. The
  terminate flag is never cleared: a pending SIGTERM leaves \<^verbatim>\<open>got_sigterm\<close> set at the end
  of the iteration, in particular when the terminate action (log line, exit status 0) is
  taken, and every run of the loop that exits with status 0 exits with the flag set.
\<close>

theorem flags_after_iteration:
  "(rc w AND WL_POSTMASTER_DEATH = 0 \<and> (got_sighup s \<or> hup_arrived w) \<longrightarrow>
      Logged LOG ''bgworker pg_rage_terminator signal: processed SIGHUP''
        \<in> set (fst (iteration w s))
      \<and> \<not> got_sighup (settled w s))
   \<and> (rc w AND WL_POSTMASTER_DEATH = 0 \<longrightarrow>
        got_sighup (state_of (snd (iteration w s)))
          = (hup_late w \<and> exit_code (snd (iteration w s)) = None))
   \<and> (got_sigterm s \<or> term_arrived w \<longrightarrow> got_sigterm (state_of (snd (iteration w s))))
   \<and> (rc w AND WL_POSTMASTER_DEATH = 0 \<and> (got_sigterm s \<or> term_arrived w) \<longrightarrow>
        last (fst (iteration w s)) =
          Logged LOG ''bgworker pg_rage_terminator signal: processed SIGTERM''
        \<and> exit_code (snd (iteration w s)) = Some 0
        \<and> got_sigterm (state_of (snd (iteration w s))))
   \<and> (exit_code (snd (main_loop ws s)) = Some 0 \<longrightarrow>
        got_sigterm (state_of (snd (main_loop ws s))))"
proof (intro conjI impI)
  assume a: "rc w AND WL_POSTMASTER_DEATH = 0 \<and> (got_sighup s \<or> hup_arrived w)"
  then show "Logged LOG ''bgworker pg_rage_terminator signal: processed SIGHUP''
        \<in> set (fst (iteration w s))"
    by (auto simp: iteration_events reload_events_eq)
  show "\<not> got_sighup (settled w s)" by simp
next
  assume "rc w AND WL_POSTMASTER_DEATH = 0"
  then show "got_sighup (state_of (snd (iteration w s)))
          = (hup_late w \<and> exit_code (snd (iteration w s)) = None)"
    by (simp add: iteration_outcome rage_pass_outcome)
next
  assume "got_sigterm s \<or> term_arrived w"
  then show "got_sigterm (state_of (snd (iteration w s)))"
    by (auto simp: state_of_iteration)
next
  assume a: "rc w AND WL_POSTMASTER_DEATH = 0 \<and> (got_sigterm s \<or> term_arrived w)"
  then have t: "got_sigterm (settled w s)" by auto
  from a t show "last (fst (iteration w s)) =
          Logged LOG ''bgworker pg_rage_terminator signal: processed SIGTERM''"
    by (simp add: iteration_events)
  from a t show "exit_code (snd (iteration w s)) = Some 0"
    by (simp add: iteration_outcome)
  from a t show "got_sigterm (state_of (snd (iteration w s)))"
    by (simp add: iteration_outcome)
next
  assume "exit_code (snd (main_loop ws s)) = Some 0"
  then show "got_sigterm (state_of (snd (main_loop ws s)))"
    by (rule main_loop_clean_exit)
qed

text \<open>
  On the sample worker: a SIGHUP is logged and its flag, set when the flags are tested,
  is clear at the end of the iteration; with both signals the process exits with status
  0, \<^verbatim>\<open>got_sighup\<close> clear and \<^verbatim>\<open>got_sigterm\<close> set, also after a pass before.
\<close>

theorem flags_after_iteration_witness:
  "hup_arrived wakeup_hup \<and> \<not> hup_late wakeup_hup
   \<and> Logged LOG ''bgworker pg_rage_terminator signal: processed SIGHUP''
        \<in> set (fst (iteration wakeup_hup worker_idle))
   \<and> got_sighup (woken wakeup_hup worker_idle)
   \<and> \<not> got_sighup (state_of (snd (iteration wakeup_hup worker_idle)))
   \<and> term_arrived wakeup_signals
   \<and> exit_code (snd (iteration wakeup_signals worker_idle)) = Some 0
   \<and> got_sigterm (state_of (snd (iteration wakeup_signals worker_idle)))
   \<and> \<not> got_sighup (state_of (snd (iteration wakeup_signals worker_idle)))
   \<and> exit_code (snd (main_loop [wakeup_quiet, wakeup_signals] worker_idle)) = Some 0
   \<and> got_sigterm (state_of (snd (main_loop [wakeup_quiet, wakeup_signals] worker_idle)))"
proof -
  have h: "hup_arrived wakeup_hup" "\<not> hup_late wakeup_hup"
    by (simp_all add: wakeup_hup_def wakeup_quiet_def)
  have g: "term_arrived wakeup_signals" "hup_arrived wakeup_signals"
    by (simp_all add: wakeup_signals_def)
  note a = flags_after_iteration [of wakeup_hup worker_idle "[]"]
  from a h have 1: "Logged LOG ''bgworker pg_rage_terminator signal: processed SIGHUP''
        \<in> set (fst (iteration wakeup_hup worker_idle))"
    and 2: "\<not> got_sighup (state_of (snd (iteration wakeup_hup worker_idle)))"
    by simp_all
  have 3: "got_sighup (woken wakeup_hup worker_idle)" by (simp add: h)
  note b = flags_after_iteration [of wakeup_signals worker_idle "[wakeup_quiet, wakeup_signals]"]
  from b g have 4: "exit_code (snd (iteration wakeup_signals worker_idle)) = Some 0"
    and 5: "got_sigterm (state_of (snd (iteration wakeup_signals worker_idle)))"
    by simp_all
  from b 4 have 6: "\<not> got_sighup (state_of (snd (iteration wakeup_signals worker_idle)))"
    by simp
  have q: "spi_ret wakeup_quiet = SPI_OK_SELECT" "\<not> hup_arrived wakeup_quiet"
    "\<not> term_arrived wakeup_quiet" "\<not> hup_late wakeup_quiet" "\<not> term_late wakeup_quiet"
    by (simp_all add: wakeup_quiet_def)
  have "snd (iteration wakeup_quiet worker_idle) = Continue worker_idle"
    by (simp add: iteration_outcome settled_idle_quiet q idle_facts rage_pass_outcome deliver_def)
  with 4 have 7: "exit_code (snd (main_loop [wakeup_quiet, wakeup_signals] worker_idle)) = Some 0"
    by (cases "snd (iteration wakeup_signals worker_idle)")
      (simp_all add: main_loop_snd idle_facts del: main_loop.simps)
  with b have 8: "got_sigterm (state_of (snd (main_loop [wakeup_quiet, wakeup_signals] worker_idle)))"
    by blast
  from h g 1 2 3 4 5 6 7 8 show ?thesis by blast
qed

end
